theory Spec2Isabelle
  imports Main "HOL-Library.Multiset"
begin

section \<open>JavaScript strings\<close>

text \<open>
  Strings are lists of characters. The text of a routine document is ASCII, and the
  functions below are applied to its lines and to the weekday names only: there
  \<open>toUpperCase\<close> and \<open>toLowerCase\<close> move the 26 letters, the regular-expression
  classes \<open>[A-Z]\<close> and \<open>\d\<close> are the ASCII ranges, and \<open>\s\<close> and \<open>trim\<close> know the white
  space below character 256. A search key typed by a user can hold any character, so
  the filters further down take the upper-casing of the language as a parameter.
\<close>

definition isUpper :: "char \<Rightarrow> bool" where
  "isUpper c = (let n = (of_char c :: nat) in 65 \<le> n \<and> n \<le> 90)"

definition isLower :: "char \<Rightarrow> bool" where
  "isLower c = (let n = (of_char c :: nat) in 97 \<le> n \<and> n \<le> 122)"

definition isDigit :: "char \<Rightarrow> bool" where
  "isDigit c = (let n = (of_char c :: nat) in 48 \<le> n \<and> n \<le> 57)"

definition isSpace :: "char \<Rightarrow> bool" where
  "isSpace c = (let n = (of_char c :: nat) in (9 \<le> n \<and> n \<le> 13) \<or> n = 32 \<or> n = 160)"

definition upperChar :: "char \<Rightarrow> char" where
  "upperChar c = (if isLower c then char_of ((of_char c :: nat) - 32) else c)"

definition lowerChar :: "char \<Rightarrow> char" where
  "lowerChar c = (if isUpper c then char_of ((of_char c :: nat) + 32) else c)"

definition toUpperCase :: "string \<Rightarrow> string" where
  "toUpperCase s = map upperChar s"

definition toLowerCase :: "string \<Rightarrow> string" where
  "toLowerCase s = map lowerChar s"

definition trim :: "string \<Rightarrow> string" where
  "trim s = rev (dropWhile isSpace (rev (dropWhile isSpace s)))"

text \<open>\<open>s.startsWith(t)\<close> and \<open>s.includes(t)\<close>.\<close>

fun startsWith :: "string \<Rightarrow> string \<Rightarrow> bool" where
  "startsWith s [] = True"
| "startsWith [] (t # ts) = False"
| "startsWith (c # cs) (t # ts) = (c = t \<and> startsWith cs ts)"

fun str_includes :: "string \<Rightarrow> string \<Rightarrow> bool" where
  "str_includes [] t = (t = [])"
| "str_includes (c # cs) t = (startsWith (c # cs) t \<or> str_includes cs t)"

text \<open>
  \<open>s.substring(a, b)\<close>: both indices are clamped to the length and swapped when
  \<open>a > b\<close>. Indices are naturals, so \<open>Math.max(0, p - 50)\<close> is the truncating \<open>p - 50\<close>.
\<close>

definition substring :: "string \<Rightarrow> nat \<Rightarrow> nat \<Rightarrow> string" where
  "substring s a b =
     (let a' = min a (length s); b' = min b (length s);
          lo = min a' b'; hi = max a' b'
      in take (hi - lo) (drop lo s))"

text \<open>\<open>text.split("\n")\<close>: the empty string splits into one empty line.\<close>

fun split_lines :: "string \<Rightarrow> string list" where
  "split_lines [] = [[]]"
| "split_lines (c # cs) =
     (if c = CHR 0x0A then [] # split_lines cs
      else (case split_lines cs of
              [] \<Rightarrow> [[c]]
            | l # ls \<Rightarrow> (c # l) # ls))"

text \<open>\<open>day.charAt(0) + day.slice(1).toLowerCase()\<close>.\<close>

definition formatDay :: "string \<Rightarrow> string" where
  "formatDay d = (case d of [] \<Rightarrow> [] | c # cs \<Rightarrow> c # toLowerCase cs)"

section \<open>Regular expressions\<close>

text \<open>
  The fragment of JavaScript regular expressions the parser uses, with the
  backtracking semantics of \<open>RegExp.prototype.exec\<close>: a matcher returns every way to
  match at a position, in the priority order of the backtracking search (greedy
  quantifiers try the longest repetition first, an alternation its left branch first),
  and the match is the first of them at the leftmost position that has one.
\<close>

datatype rx =
    Cls "char \<Rightarrow> bool"
  | Lit string
  | Rep nat "nat option" "char \<Rightarrow> bool"
  | Seq rx rx
  | Alt rx rx
  | Opt rx
  | Grp nat rx
  | Bol
  | Eol

type_synonym captures = "(nat \<times> string) list"

text \<open>A matcher state: the absolute position, the rest of the input, the captures.\<close>

type_synonym mstate = "nat \<times> string \<times> captures"

fun rx_match :: "rx \<Rightarrow> mstate \<Rightarrow> mstate list" where
  "rx_match (Cls p) (i, s, c) =
     (case s of [] \<Rightarrow> [] | x # xs \<Rightarrow> if p x then [(Suc i, xs, c)] else [])"
| "rx_match (Lit l) (i, s, c) =
     (if startsWith s l then [(i + length l, drop (length l) s, c)] else [])"
| "rx_match (Rep lo hi p) (i, s, c) =
     (let m = length (takeWhile p s);
          m' = (case hi of None \<Rightarrow> m | Some h \<Rightarrow> min m h)
      in map (\<lambda>n. (i + n, drop n s, c)) (rev [lo..<Suc m']))"
| "rx_match (Seq a b) st = concat (map (rx_match b) (rx_match a st))"
| "rx_match (Alt a b) st = rx_match a st @ rx_match b st"
| "rx_match (Opt a) st = rx_match a st @ [st]"
| "rx_match (Grp n a) (i, s, c) =
     map (\<lambda>(j, s', c'). (j, s', (n, take (j - i) s) # c')) (rx_match a (i, s, c))"
| "rx_match Bol (i, s, c) = (if i = 0 then [(i, s, c)] else [])"
| "rx_match Eol (i, s, c) = (if s = [] then [(i, s, c)] else [])"

text \<open>A match: its index, the index after its last character, its captures.\<close>

type_synonym rmatch = "nat \<times> nat \<times> captures"

definition match_at :: "rx \<Rightarrow> nat \<Rightarrow> string \<Rightarrow> rmatch option" where
  "match_at r i s =
     (case rx_match r (i, s, []) of
        [] \<Rightarrow> None
      | (j, s', c) # _ \<Rightarrow> Some (i, j, c))"

text \<open>The leftmost match in \<open>s\<close>, whose first character is at position \<open>i\<close>.\<close>

fun rx_search :: "rx \<Rightarrow> nat \<Rightarrow> string \<Rightarrow> rmatch option" where
  "rx_search r i [] = match_at r i []"
| "rx_search r i (x # xs) =
     (case match_at r i (x # xs) of
        Some m \<Rightarrow> Some m
      | None \<Rightarrow> rx_search r (Suc i) xs)"

text \<open>\<open>re.exec(s)\<close> of an expression without the \<open>g\<close> flag.\<close>

definition rx_exec :: "rx \<Rightarrow> string \<Rightarrow> rmatch option" where
  "rx_exec r s = rx_search r 0 s"

text \<open>
  \<open>while ((m = re.exec(s)) !== null)\<close> of an expression with the \<open>g\<close> flag: every
  search starts where the last match ended. An empty match would leave \<open>lastIndex\<close>
  where it is and the source's loop would spin; no expression of the parser matches
  the empty string (lemma \<open>rx_search_progress\<close> below), and the model stops there.
\<close>

function rx_all :: "rx \<Rightarrow> nat \<Rightarrow> string \<Rightarrow> rmatch list" where
  "rx_all r i s =
     (case rx_search r i s of
        None \<Rightarrow> []
      | Some (k, j, c) \<Rightarrow>
          if i < j \<and> j \<le> i + length s
          then (k, j, c) # rx_all r j (drop (j - i) s)
          else [(k, j, c)])"
  by pat_completeness auto
termination
  by (relation "measure (\<lambda>(r, i, s). length s)") auto

definition group :: "captures \<Rightarrow> nat \<Rightarrow> string" where
  "group c n = (case map_of c n of None \<Rightarrow> [] | Some g \<Rightarrow> g)"

fun seqs :: "rx list \<Rightarrow> rx" where
  "seqs [] = Lit []"
| "seqs [r] = r"
| "seqs (r # rs) = Seq r (seqs rs)"

section \<open>The routine parser (pdf-parser-v3.ts)\<close>

record ClassSchedule =
  day :: string
  timeStart :: string
  timeEnd :: string
  courseCode :: string
  courseName :: string
  batch :: string
  sect :: string
  room :: string
  teacher :: string
  batchSection :: string

text \<open>
  The field \<open>section\<close> of the source is \<open>sect\<close> here, and a time slot's \<open>start\<close> and
  \<open>end\<close> are \<open>slotStart\<close> and \<open>slotEnd\<close>: the source's names are Isabelle keywords.
\<close>

record ScheduleStats =
  totalClasses :: nat
  busiestDay :: string
  lightestDay :: string
  busiestDayCount :: nat
  lightestDayCount :: nat

record ParsedSchedule =
  classes :: "ClassSchedule list"
  stats :: ScheduleStats
  faculty :: "string list"

record TimeSlot =
  slotStart :: string
  slotEnd :: string
  columnStart :: nat
  columnEnd :: nat

definition DAYS :: "string list" where
  "DAYS = [''SATURDAY'', ''SUNDAY'', ''MONDAY'', ''TUESDAY'', ''WEDNESDAY'', ''THURSDAY'',
           ''FRIDAY'']"

definition COURSE_NAMES :: "(string \<times> string) list" where
  "COURSE_NAMES = [
   (''ENG101'', ''Basic Functional English and English Spoken''),
   (''ENG102'', ''Writing and Comprehension''),
   (''MAT101'', ''Mathematics - I''),
   (''MAT102'', ''Mathematics-II: Calculus, Complex Variables and Linear Algebra''),
   (''CSE112'', ''Computer Fundamentals''),
   (''CSE113'', ''Programming and Problem Solving''),
   (''CSE114'', ''Programming and Problem Solving Lab''),
   (''CSE115'', ''Introduction to Biology and Chemistry for Computation''),
   (''CSE121'', ''Electrical Circuits''),
   (''CSE122'', ''Electrical Circuits Lab''),
   (''CSE123'', ''Data Structure''),
   (''CSE124'', ''Data Structure Lab''),
   (''PHY101'', ''Physics-I''),
   (''PHY102'', ''Physics - II''),
   (''PHY103'', ''Physics - II Lab''),
   (''MAT211'', ''Engineering Mathematics''),
   (''CSE212'', ''Discrete Mathematics''),
   (''CSE213'', ''Algorithms''),
   (''CSE214'', ''Algorithms Lab''),
   (''CSE215'', ''Electronic Devices and Circuits''),
   (''CSE216'', ''Electronic Devices and Circuits Lab''),
   (''CSE221'', ''Object Oriented Programming''),
   (''CSE222'', ''Object Oriented Programming Lab''),
   (''CSE223'', ''Digital Logic Design''),
   (''CSE224'', ''Digital Logic Design Lab''),
   (''CSE225'', ''Data Communication''),
   (''CSE226'', ''Numerical Methods''),
   (''CSE227'', ''Systems Analysis and Design''),
   (''CSE228'', ''Theory of Computation''),
   (''BNS101'', ''Bangladesh Studies (History of Independence and Contemporary Issues)''),
   (''STA101'', ''Statistics and Probability''),
   (''AOL101'', ''Art of Living''),
   (''CSE311'', ''Database Management System''),
   (''CSE312'', ''Database Management System Lab''),
   (''CSE313'', ''Compiler Design''),
   (''CSE314'', ''Compiler Design Lab''),
   (''CSE315'', ''Software Engineering''),
   (''CSE316'', ''Artificial Intelligence''),
   (''CSE317'', ''Microprocessor and Microcontrollers''),
   (''CSE321'', ''Computer Networks''),
   (''CSE322'', ''Computer Networks Lab''),
   (''CSE323'', ''Operating Systems''),
   (''CSE324'', ''Operating Systems Lab''),
   (''CSE325'', ''Instrumentation and Control''),
   (''CSE326'', ''Social and Professional Issues in Computing''),
   (''ACT327'', ''Financial and Managerial Accounting''),
   (''ECO426'', ''Engineering Economics''),
   (''CSE411'', ''Computer Graphics''),
   (''CSE412'', ''Computer Graphics Lab''),
   (''CSE413'', ''Computer Architecture and Organization''),
   (''CSE498'', ''Capstone Project (Phase I)''),
   (''CSE499'', ''Capstone Project (Phase II)'')]"

text \<open>\<open>COURSE_NAMES[courseCode] || courseCode\<close>: no title in the table is empty.\<close>

definition lookupCourseName :: "string \<Rightarrow> string" where
  "lookupCourseName code =
     (case map_of COURSE_NAMES code of
        None \<Rightarrow> code
      | Some n \<Rightarrow> if n = [] then code else n)"

text \<open>\<open>/([A-Z]{3}\d{3})\((\d{2,3})_([A-Z]\d?)\)/g\<close>\<close>

definition coursePattern :: rx where
  "coursePattern =
     seqs [Grp 1 (Seq (Rep 3 (Some 3) isUpper) (Rep 3 (Some 3) isDigit)),
           Lit ''('',
           Grp 2 (Rep 2 (Some 3) isDigit),
           Lit ''_'',
           Grp 3 (Seq (Cls isUpper) (Rep 0 (Some 1) isDigit)),
           Lit '')'']"

text \<open>\<open>/(\d{2}:\d{2})-(\d{2}:\d{2})/g\<close>\<close>

definition timePattern :: rx where
  "timePattern =
     seqs [Grp 1 (seqs [Rep 2 (Some 2) isDigit, Lit '':'', Rep 2 (Some 2) isDigit]),
           Lit ''-'',
           Grp 2 (seqs [Rep 2 (Some 2) isDigit, Lit '':'', Rep 2 (Some 2) isDigit])]"

text \<open>\<open>/Course/g\<close>\<close>

definition courseHeaderPattern :: rx where
  "courseHeaderPattern = Lit ''Course''"

text \<open>\<open>/([A-Z]{1,2}-\d{2,3}(?:\([A-Z]\))?|G\d-\d{3})\s*$/\<close>\<close>

definition roomPattern :: rx where
  "roomPattern =
     seqs [Grp 1 (Alt (seqs [Rep 1 (Some 2) isUpper, Lit ''-'', Rep 2 (Some 3) isDigit,
                             Opt (seqs [Lit ''('', Cls isUpper, Lit '')''])])
                      (seqs [Lit ''G'', Cls isDigit, Lit ''-'', Rep 3 (Some 3) isDigit])),
           Rep 0 None isSpace,
           Eol]"

text \<open>\<open>/^\s*([A-Z]{2,4}(?:_\d+)?)/\<close>\<close>

definition teacherPattern :: rx where
  "teacherPattern =
     seqs [Bol,
           Rep 0 None isSpace,
           Grp 1 (Seq (Rep 2 (Some 4) isUpper) (Opt (Seq (Lit ''_'') (Rep 1 None isDigit))))]"

text \<open>The time ranges of the line after a day header.\<close>

definition extractTimes :: "string \<Rightarrow> (string \<times> string) list" where
  "extractTimes timeLine =
     map (\<lambda>(k, j, c). (group c 1, group c 2)) (rx_all timePattern 0 timeLine)"

text \<open>The positions of \<open>Course\<close> in the header line.\<close>

definition extractColumnPositions :: "string \<Rightarrow> nat list" where
  "extractColumnPositions headerLine =
     map (\<lambda>(k, j, c). k) (rx_all courseHeaderPattern 0 headerLine)"

text \<open>
  The column of time range \<open>j\<close>: it starts at 0 or at the midpoint to the previous
  anchor and ends at the midpoint to the next anchor, or at 300 when there is none
  (\<open>nextPos ? ... : 300\<close>, so also when the next position is 0).
\<close>

definition buildSlot :: "(string \<times> string) list \<Rightarrow> nat list \<Rightarrow> nat \<Rightarrow> TimeSlot" where
  "buildSlot timeRanges columnPositions j =
     (let currentPos = columnPositions ! j;
          colStart = (if j = 0 then 0 else (columnPositions ! (j - 1) + currentPos) div 2);
          colEnd = (if Suc j < length columnPositions \<and> columnPositions ! Suc j \<noteq> 0
                    then (currentPos + columnPositions ! Suc j) div 2
                    else 300)
      in \<lparr>slotStart = fst (timeRanges ! j), slotEnd = snd (timeRanges ! j),
          columnStart = colStart, columnEnd = colEnd\<rparr>)"

text \<open>Columns are built only when there are as many time ranges as anchors.\<close>

definition buildTimeSlots :: "(string \<times> string) list \<Rightarrow> nat list \<Rightarrow> TimeSlot list" where
  "buildTimeSlots timeRanges columnPositions =
     (if length timeRanges = length columnPositions
      then map (buildSlot timeRanges columnPositions) [0..<length timeRanges]
      else [])"

text \<open>The slot of a match: the first column that holds its position, else the first slot.\<close>

definition findSlot :: "TimeSlot \<Rightarrow> TimeSlot list \<Rightarrow> nat \<Rightarrow> TimeSlot" where
  "findSlot first slots matchPosition =
     (case find (\<lambda>slot. columnStart slot \<le> matchPosition \<and> matchPosition < columnEnd slot)
             slots of
        None \<Rightarrow> first
      | Some slot \<Rightarrow> slot)"

definition extractRoom :: "string \<Rightarrow> nat \<Rightarrow> string" where
  "extractRoom line matchPosition =
     (let beforeCourse = substring line (matchPosition - 50) matchPosition
      in case rx_exec roomPattern beforeCourse of
           None \<Rightarrow> ''TBA''
         | Some (k, j, c) \<Rightarrow> group c 1)"

definition extractTeacher :: "string \<Rightarrow> nat \<Rightarrow> string" where
  "extractTeacher line matchEnd =
     (let afterCourse = substring line matchEnd (matchEnd + 30)
      in case rx_exec teacherPattern afterCourse of
           None \<Rightarrow> ''TBA''
         | Some (k, j, c) \<Rightarrow> group c 1)"

text \<open>The state of the loop over the lines.\<close>

record xstate =
  currentDay :: string
  timeSlots :: "TimeSlot list"
  inComLabSection :: bool
  result :: "ClassSchedule list"
  seen :: "string list"

definition uniqueKey :: "string \<Rightarrow> string \<Rightarrow> string \<Rightarrow> string \<Rightarrow> string" where
  "uniqueKey d t code bs = d @ ''|'' @ t @ ''|'' @ code @ ''|'' @ bs"

text \<open>One match of the course pattern in a line: the body of the inner loop.\<close>

definition processMatch :: "string \<Rightarrow> xstate \<Rightarrow> rmatch \<Rightarrow> xstate" where
  "processMatch line st m =
     (case m of (matchPosition, matchEnd, c) \<Rightarrow>
      (case timeSlots st of
         [] \<Rightarrow> st
       | first # rest \<Rightarrow>
          (let code = group c 1;
               b = group c 2;
               sc = group c 3;
               timeSlot = findSlot first (first # rest) matchPosition;
               rm = extractRoom line matchPosition;
               tch = extractTeacher line matchEnd;
               bs = b @ ''_'' @ sc;
               classEntry = \<lparr>day = currentDay st,
                             timeStart = slotStart timeSlot,
                             timeEnd = slotEnd timeSlot,
                             courseCode = code,
                             courseName = lookupCourseName code,
                             batch = b,
                             sect = sc,
                             room = (if inComLabSection st then rm @ '' (LAB)'' else rm),
                             teacher = tch,
                             batchSection = bs\<rparr>;
               key = uniqueKey (currentDay st) (slotStart timeSlot) code bs
           in if key \<in> set (seen st) then st
              else st\<lparr>seen := key # seen st, result := result st @ [classEntry]\<rparr>)))"

text \<open>
  One line, with the lines after it: \<open>lines[i + 1] || ""\<close> and \<open>lines[i + 2] || ""\<close>
  are read after a day header.
\<close>

definition lineAt :: "string list \<Rightarrow> nat \<Rightarrow> string" where
  "lineAt ls n = (if n < length ls then ls ! n else [])"

definition step :: "string \<Rightarrow> string list \<Rightarrow> xstate \<Rightarrow> xstate" where
  "step line following st =
     (let dayUpper = toUpperCase (trim line) in
      if dayUpper \<in> set DAYS
      then st\<lparr>currentDay := dayUpper,
              timeSlots := buildTimeSlots (extractTimes (lineAt following 0))
                             (extractColumnPositions (lineAt following 1)),
              inComLabSection := False\<rparr>
      else if str_includes line ''(COM LAB)'' \<or> str_includes line ''COM LAB''
      then st\<lparr>inComLabSection := True\<rparr>
      else if currentDay st = [] \<or> timeSlots st = [] then st
      else foldl (processMatch line) st (rx_all coursePattern 0 line))"

fun run :: "string list \<Rightarrow> xstate \<Rightarrow> xstate" where
  "run [] st = st"
| "run (line # following) st = run following (step line following st)"

definition initial :: xstate where
  "initial = \<lparr>currentDay = [], timeSlots = [], inComLabSection = False, result = [],
              seen = []\<rparr>"

definition extractClasses :: "string \<Rightarrow> ClassSchedule list" where
  "extractClasses text = result (run (split_lines text) initial)"

section \<open>Statistics, filters and grouping\<close>

definition dayCount :: "ClassSchedule list \<Rightarrow> string \<Rightarrow> nat" where
  "dayCount cs d = length (filter (\<lambda>c. day c = d) cs)"

text \<open>
  The accumulator of the second \<open>DAYS.forEach\<close>: busiest day and count, lightest day
  and count. \<open>lightestCount\<close> starts as \<open>Infinity\<close>, which is \<open>None\<close> here.
\<close>

type_synonym statsAcc = "string \<times> nat \<times> string \<times> nat option"

definition statsStep :: "ClassSchedule list \<Rightarrow> statsAcc \<Rightarrow> string \<Rightarrow> statsAcc" where
  "statsStep cs acc d =
     (case acc of (bDay, bCount, lDay, lCount) \<Rightarrow>
       (let count = dayCount cs d;
            busier = (count > bCount);
            lighter = ((case lCount of None \<Rightarrow> True | Some l \<Rightarrow> count < l) \<and> count > 0)
        in (if busier then d else bDay,
            if busier then count else bCount,
            if lighter then d else lDay,
            if lighter then Some count else lCount)))"

text \<open>\<open>PDFParserV3.calculateStats\<close>\<close>

definition calculateStats :: "ClassSchedule list \<Rightarrow> ScheduleStats" where
  "calculateStats cs =
     (case foldl (statsStep cs) (DAYS ! 0, 0, DAYS ! 0, None) DAYS of
        (bDay, bCount, lDay, lCount) \<Rightarrow>
          \<lparr>totalClasses = length cs,
           busiestDay = formatDay bDay,
           lightestDay = formatDay lDay,
           busiestDayCount = bCount,
           lightestDayCount = (case lCount of None \<Rightarrow> 0 | Some l \<Rightarrow> l)\<rparr>)"

text \<open>
  \<open>PDFParserV2.calculateStats\<close>, the earlier version of the same function: it answers
  the empty list before counting.
\<close>

definition calculateStatsV2 :: "ClassSchedule list \<Rightarrow> ScheduleStats" where
  "calculateStatsV2 cs =
     (if length cs = 0
      then \<lparr>totalClasses = 0, busiestDay = ''N/A'', lightestDay = ''N/A'',
            busiestDayCount = 0, lightestDayCount = 0\<rparr>
      else calculateStats cs)"

definition filterByBatchSection :: "ClassSchedule list \<Rightarrow> string \<Rightarrow> ClassSchedule list" where
  "filterByBatchSection cs bs = filter (\<lambda>c. batchSection c = bs) cs"

text \<open>
  \<open>filterByTeacher\<close> and \<open>filterByRoom\<close> upper-case a key that comes from the caller.
  \<open>String.prototype.toUpperCase\<close> is their first argument \<open>upper\<close> here: nothing is
  assumed of it, so what is proved of the filters holds for the upper-casing of the
  language on every string.
\<close>

definition filterByTeacher ::
  "(string \<Rightarrow> string) \<Rightarrow> ClassSchedule list \<Rightarrow> string \<Rightarrow> ClassSchedule list" where
  "filterByTeacher upper cs t = filter (\<lambda>c. upper (teacher c) = upper t) cs"

definition filterByRoom ::
  "(string \<Rightarrow> string) \<Rightarrow> ClassSchedule list \<Rightarrow> string \<Rightarrow> ClassSchedule list" where
  "filterByRoom upper cs r = filter (\<lambda>c. str_includes (room c) (upper r)) cs"

text \<open>
  A JavaScript object with string keys, in insertion order: assigning to a key it has
  replaces the value in place, assigning to a new key appends.
\<close>

fun objSet :: "(string \<times> 'v) list \<Rightarrow> string \<Rightarrow> 'v \<Rightarrow> (string \<times> 'v) list" where
  "objSet [] k v = [(k, v)]"
| "objSet ((k', v') # kvs) k v =
     (if k' = k then (k, v) # kvs else (k', v') # objSet kvs k v)"

text \<open>\<open>PDFParserV3.groupByDay\<close>\<close>

definition groupByDay :: "ClassSchedule list \<Rightarrow> (string \<times> ClassSchedule list) list" where
  "groupByDay cs =
     foldl (\<lambda>grouped d. objSet grouped (formatDay d) (filter (\<lambda>c. day c = d) cs)) [] DAYS"

section \<open>Downloading and parsing (parsePDFFromURL)\<close>

text \<open>
  The world outside the parser: what the download of a URL gives (the bytes, or the
  text of the error thrown), whether writing the temporary file fails, and what
  \<open>pdftotext -layout\<close> prints for the bytes (or the text of the error thrown).
  The effects of a call are returned as a trace.
\<close>

datatype error = Error string

datatype event = Download string | WriteFile string | Exec string | Unlink string

record World =
  httpGet :: "string \<Rightarrow> string + string"
  writeFile :: "string \<Rightarrow> string option"
  pdftotext :: "string \<Rightarrow> string + string"

text \<open>\<open>Array.from(new Set(xs))\<close>: the first occurrence of each element, in order.\<close>

fun uniq :: "'a list \<Rightarrow> 'a list \<Rightarrow> 'a list" where
  "uniq acc [] = acc"
| "uniq acc (x # xs) = (if x \<in> set acc then uniq acc xs else uniq (acc @ [x]) xs)"

definition failed :: "string \<Rightarrow> error" where
  "failed cause = Error (''Failed to parse PDF: '' @ cause)"

text \<open>
  \<open>tmp\<close> is the temporary path. Every error thrown in the \<open>try\<close> block is caught and
  thrown again as \<open>new Error(`Failed to parse PDF: ${error}`)\<close>; the \<open>finally\<close> block
  unlinks the file once the path is set.
\<close>

definition parsePDFFromURL :: "World \<Rightarrow> string \<Rightarrow> string \<Rightarrow> (error + ParsedSchedule) \<times> event list" where
  "parsePDFFromURL w tmp url =
     (case httpGet w url of
        Inl cause \<Rightarrow> (Inl (failed cause), [Download url])
      | Inr pdfBuffer \<Rightarrow>
          (case writeFile w tmp of
             Some cause \<Rightarrow> (Inl (failed cause), [Download url, WriteFile tmp, Unlink tmp])
           | None \<Rightarrow>
               (case pdftotext w pdfBuffer of
                  Inl cause \<Rightarrow>
                    (Inl (failed cause), [Download url, WriteFile tmp, Exec tmp, Unlink tmp])
                | Inr stdout \<Rightarrow>
                    (let cs = extractClasses stdout
                     in (Inr \<lparr>classes = cs, stats = calculateStats cs,
                               faculty = uniq [] (map teacher cs)\<rparr>,
                         [Download url, WriteFile tmp, Exec tmp, Unlink tmp])))))"

section \<open>The cache service (pdf-cache-service.ts)\<close>

text \<open>
  The two tables, rows in the order of their auto-increment primary key. Times are
  milliseconds, and \<open>setDate(getDate() + 30)\<close> adds 30 days of 86400000 ms (no
  change of the clock in between). A query without \<open>ORDER BY\<close> scans a table in the
  order of its primary key, so \<open>.limit(1)\<close> gives the matching row with the least id.
\<close>

record PdfCacheRow =
  pc_id :: nat
  pc_department :: string
  pc_pdfUrl :: string
  pc_version :: string
  pc_parsedAt :: int
  pc_expiresAt :: int
  pc_totalClasses :: nat

record ClassRow =
  cr_id :: nat
  cr_cacheId :: nat
  cr_day :: string
  cr_timeStart :: string
  cr_timeEnd :: string
  cr_courseCode :: string
  cr_courseName :: "string option"
  cr_batch :: string
  cr_section :: string
  cr_batchSection :: string
  cr_room :: string
  cr_teacher :: string
  cr_department :: string
  cr_createdAt :: int

record Db =
  pdfCache :: "PdfCacheRow list"
  classSchedules :: "ClassRow list"
  cacheAutoInc :: nat
  classAutoInc :: nat

definition emptyDb :: Db where
  "emptyDb = \<lparr>pdfCache = [], classSchedules = [], cacheAutoInc = 1, classAutoInc = 1\<rparr>"

definition CACHE_DURATION_DAYS :: int where
  "CACHE_DURATION_DAYS = 30"

definition msPerDay :: int where
  "msPerDay = 86400000"

definition dbUnavailable :: error where
  "dbUnavailable = Error ''Database not available''"

text \<open>The row of \<open>classSchedules\<close> as the service returns it: \<open>c.courseName || c.courseCode\<close>.\<close>

definition rowToClass :: "ClassRow \<Rightarrow> ClassSchedule" where
  "rowToClass c =
     \<lparr>day = cr_day c, timeStart = cr_timeStart c, timeEnd = cr_timeEnd c,
      courseCode = cr_courseCode c,
      courseName = (case cr_courseName c of
                      None \<Rightarrow> cr_courseCode c
                    | Some n \<Rightarrow> if n = [] then cr_courseCode c else n),
      batch = cr_batch c, sect = cr_section c, room = cr_room c, teacher = cr_teacher c,
      batchSection = cr_batchSection c\<rparr>"

definition classToRow :: "nat \<Rightarrow> string \<Rightarrow> int \<Rightarrow> nat \<Rightarrow> ClassSchedule \<Rightarrow> ClassRow" where
  "classToRow cacheId department now rid c =
     \<lparr>cr_id = rid, cr_cacheId = cacheId, cr_day = day c, cr_timeStart = timeStart c,
      cr_timeEnd = timeEnd c, cr_courseCode = courseCode c, cr_courseName = Some (courseName c),
      cr_batch = batch c, cr_section = sect c, cr_batchSection = batchSection c,
      cr_room = room c, cr_teacher = teacher c, cr_department = department,
      cr_createdAt = now\<rparr>"

text \<open>\<open>db.insert(classSchedules).values(rows)\<close>: the rows get consecutive ids.\<close>

definition insertClasses :: "Db \<Rightarrow> nat \<Rightarrow> string \<Rightarrow> int \<Rightarrow> ClassSchedule list \<Rightarrow> Db" where
  "insertClasses db cacheId department now cs =
     db\<lparr>classSchedules := classSchedules db @
            map (\<lambda>(k, c). classToRow cacheId department now (classAutoInc db + k) c)
                (zip [0..<length cs] cs),
        classAutoInc := classAutoInc db + length cs\<rparr>"

text \<open>
  \<open>getOrParsePdf\<close>. \<open>now\<close> is the time of the validity check, \<open>later\<close> the time after
  the parse, from which the expiry is counted. The result comes with the database
  after the call and the trace of the parse (empty when the cache answered).
\<close>

definition getOrParsePdf ::
  "World \<Rightarrow> string \<Rightarrow> int \<Rightarrow> int \<Rightarrow> Db option \<Rightarrow> string \<Rightarrow> string \<Rightarrow> string
   \<Rightarrow> (error + ClassSchedule list) \<times> Db option \<times> event list" where
  "getOrParsePdf w tmp now later dbo department pdfUrl version =
     (case dbo of
        None \<Rightarrow> (Inl dbUnavailable, None, [])
      | Some db \<Rightarrow>
          (let cache = take 1 (filter (\<lambda>c. pc_department c = department \<and> pc_version c = version)
                                 (pdfCache db));
               validCache = find (\<lambda>c. pc_expiresAt c > now) cache
           in case validCache of
                Some vc \<Rightarrow>
                  (Inr (map rowToClass
                          (filter (\<lambda>c. cr_cacheId c = pc_id vc) (classSchedules db))),
                   Some db, [])
              | None \<Rightarrow>
                  (case parsePDFFromURL w tmp pdfUrl of
                     (Inl e, tr) \<Rightarrow> (Inl e, Some db, tr)
                   | (Inr parsed, tr) \<Rightarrow>
                       (let expiresAt = later + CACHE_DURATION_DAYS * msPerDay;
                            cacheId = cacheAutoInc db;
                            db1 = db\<lparr>pdfCache := pdfCache db @
                                      [\<lparr>pc_id = cacheId, pc_department = department,
                                        pc_pdfUrl = pdfUrl, pc_version = version,
                                        pc_parsedAt = later, pc_expiresAt = expiresAt,
                                        pc_totalClasses = length (classes parsed)\<rparr>],
                                    cacheAutoInc := Suc (cacheAutoInc db)\<rparr>;
                            db2 = (if length (classes parsed) > 0
                                   then insertClasses db1 cacheId department later (classes parsed)
                                   else db1)
                        in (Inr (classes parsed), Some db2, tr)))))"

text \<open>\<open>clearCache\<close>\<close>

definition clearCache :: "Db option \<Rightarrow> string \<Rightarrow> error + Db" where
  "clearCache dbo department =
     (case dbo of
        None \<Rightarrow> Inl dbUnavailable
      | Some db \<Rightarrow>
          (let caches = filter (\<lambda>c. pc_department c = department) (pdfCache db);
               db1 = foldl (\<lambda>d cache. d\<lparr>classSchedules :=
                              filter (\<lambda>r. cr_cacheId r \<noteq> pc_id cache) (classSchedules d)\<rparr>)
                       db caches
           in Inr (db1\<lparr>pdfCache := filter (\<lambda>c. pc_department c \<noteq> department) (pdfCache db1)\<rparr>)))"

record CacheStatus =
  isCached :: bool
  st_parsedAt :: "int option"
  st_expiresAt :: "int option"
  st_totalClasses :: "nat option"

text \<open>\<open>getCacheStatus\<close>\<close>

definition getCacheStatus :: "Db option \<Rightarrow> int \<Rightarrow> string \<Rightarrow> error + CacheStatus" where
  "getCacheStatus dbo now department =
     (case dbo of
        None \<Rightarrow> Inl dbUnavailable
      | Some db \<Rightarrow>
          (case take 1 (filter (\<lambda>c. pc_department c = department) (pdfCache db)) of
             [] \<Rightarrow> Inr \<lparr>isCached = False, st_parsedAt = None, st_expiresAt = None,
                       st_totalClasses = None\<rparr>
           | c # _ \<Rightarrow>
               (let isExpired = (pc_expiresAt c \<le> now)
                in Inr \<lparr>isCached = \<not> isExpired, st_parsedAt = Some (pc_parsedAt c),
                        st_expiresAt = Some (pc_expiresAt c),
                        st_totalClasses = Some (pc_totalClasses c)\<rparr>)))"

section \<open>Column pairing of pdf-parser-optimized.ts\<close>

text \<open>\<open>columnPositions[idx] || dflt\<close>: the default also replaces a position 0.\<close>

definition positionOr :: "nat list \<Rightarrow> nat \<Rightarrow> nat \<Rightarrow> nat" where
  "positionOr columnPositions idx dflt =
     (if idx < length columnPositions \<and> columnPositions ! idx \<noteq> 0
      then columnPositions ! idx else dflt)"

text \<open>\<open>times.map((time, idx) => ...)\<close> of \<open>PDFParserOptimized.extractClasses\<close>.\<close>

definition buildTimeSlotsOptimized :: "(string \<times> string) list \<Rightarrow> nat list \<Rightarrow> TimeSlot list" where
  "buildTimeSlotsOptimized timeRanges columnPositions =
     map (\<lambda>idx. \<lparr>slotStart = fst (timeRanges ! idx), slotEnd = snd (timeRanges ! idx),
                  columnStart = positionOr columnPositions idx 0,
                  columnEnd = positionOr columnPositions (Suc idx) 999\<rparr>)
         [0..<length timeRanges]"

section \<open>Auxiliary notions and example inputs\<close>

text \<open>The least number of characters a match of an expression takes.\<close>

fun minLen :: "rx \<Rightarrow> nat" where
  "minLen (Cls p) = 1"
| "minLen (Lit l) = length l"
| "minLen (Rep lo hi p) = lo"
| "minLen (Seq a b) = minLen a + minLen b"
| "minLen (Alt a b) = min (minLen a) (minLen b)"
| "minLen (Opt a) = 0"
| "minLen (Grp n a) = minLen a"
| "minLen Bol = 0"
| "minLen Eol = 0"

definition isDayHeader :: "string \<Rightarrow> bool" where
  "isDayHeader line = (toUpperCase (trim line) \<in> set DAYS)"

text \<open>Lines joined by the newline character.\<close>

fun unlines :: "string list \<Rightarrow> string" where
  "unlines [] = []"
| "unlines [l] = l"
| "unlines (l # ls) = l @ [CHR 0x0A] @ unlines ls"

text \<open>The six fields the deduplication key of the specification is made of.\<close>

definition sixFields :: "ClassSchedule \<Rightarrow> string \<times> string \<times> string \<times> string \<times> string \<times> string" where
  "sixFields c = (day c, timeStart c, courseCode c, batchSection c, teacher c, room c)"

text \<open>The fields the scenario of the specification lists for an entry.\<close>

definition scenarioFields ::
  "ClassSchedule \<Rightarrow> string \<times> string \<times> string \<times> string \<times> string \<times> string \<times> string" where
  "scenarioFields c =
     (day c, timeStart c, courseCode c, batch c, sect c, room c, teacher c)"

text \<open>
  The SATURDAY block of the specification's scenario with a given anchor line: the
  specification writes the line as two placeholders and leaves its layout open.
\<close>

definition scenarioWith :: "string \<Rightarrow> string" where
  "scenarioWith anchorLine = unlines [''SATURDAY'',
                                      ''08:30-10:00  10:00-11:30'',
                                      anchorLine,
                                      ''KT-222CSE112(71_I)MB  KT-223MAT101(71_I)AST'']"

text \<open>
  The scenario with the two anchors \<open>Course\<close> over the two course codes, at offsets 6
  and 28; as the header \<open>Room Course Teacher\<close> of each column, the anchors at offsets 5
  and 25; and with the two anchors at the start of the line, at offsets 0 and 7.
\<close>

definition scenarioText :: string where
  "scenarioText = scenarioWith ''      Course                Course''"


definition scenarioCompactText :: string where
  "scenarioCompactText = scenarioWith ''Course Course''"

text \<open>One section taught by two instructors in two rooms in the same slot.\<close>

definition twoTeachersText :: string where
  "twoTeachersText = unlines [''SATURDAY'',
                              ''08:30-10:00'',
                              ''Course'',
                              ''KT-222CSE112(71_I)MB'',
                              ''KT-223CSE112(71_I)AST'']"

text \<open>A day block with two time ranges and one anchor.\<close>

definition mismatchText :: string where
  "mismatchText = unlines [''SATURDAY'',
                           ''08:30-10:00  10:00-11:30'',
                           ''Course'',
                           ''KT-222CSE112(71_I)MB'']"

definition entryOn :: "string \<Rightarrow> string \<Rightarrow> string \<Rightarrow> ClassSchedule" where
  "entryOn d code r =
     \<lparr>day = d, timeStart = ''08:30'', timeEnd = ''10:00'', courseCode = code,
      courseName = code, batch = ''71'', sect = ''I'', room = r, teacher = ''MB'',
      batchSection = ''71_I''\<rparr>"

text \<open>Worlds: one where everything works, one where the download fails, one where
  the text extraction fails.\<close>

definition okWorld :: World where
  "okWorld = \<lparr>httpGet = (\<lambda>url. Inr ''%PDF''), writeFile = (\<lambda>p. None),
              pdftotext = (\<lambda>bytes. Inr scenarioText)\<rparr>"

definition fetchFails :: "string \<Rightarrow> World" where
  "fetchFails cause = \<lparr>httpGet = (\<lambda>url. Inl cause), writeFile = (\<lambda>p. None),
                       pdftotext = (\<lambda>bytes. Inr scenarioText)\<rparr>"

definition extractFails :: "string \<Rightarrow> World" where
  "extractFails cause = \<lparr>httpGet = (\<lambda>url. Inr ''%PDF''), writeFile = (\<lambda>p. None),
                         pdftotext = (\<lambda>bytes. Inl cause)\<rparr>"

definition days :: "int \<Rightarrow> int" where
  "days n = n * msPerDay"

text \<open>The number of parses a trace shows: one download each.\<close>

definition parseCount :: "event list \<Rightarrow> nat" where
  "parseCount tr = length (filter (\<lambda>e. case e of Download u \<Rightarrow> True | _ \<Rightarrow> False) tr)"

text \<open>A record of the department that has not expired at \<open>now\<close>.\<close>

definition hasValidRecord :: "Db \<Rightarrow> int \<Rightarrow> string \<Rightarrow> bool" where
  "hasValidRecord db now department =
     (find (\<lambda>c. pc_department c = department \<and> pc_expiresAt c > now) (pdfCache db) \<noteq> None)"

text \<open>The database after a call of \<open>getOrParsePdf\<close>, and the trace of the call.\<close>

definition dbAfter :: "(error + ClassSchedule list) \<times> Db option \<times> event list \<Rightarrow> Db option" where
  "dbAfter r = fst (snd r)"

definition traceOf :: "(error + ClassSchedule list) \<times> Db option \<times> event list \<Rightarrow> event list" where
  "traceOf r = snd (snd r)"

text \<open>
  Three calls for the same key from an empty database: at time 0, after the first
  record has expired, and one day later.
\<close>

definition call1 :: "(error + ClassSchedule list) \<times> Db option \<times> event list" where
  "call1 = getOrParsePdf okWorld ''/tmp/routine_1.pdf'' 0 0 (Some emptyDb)
             ''cse'' ''https://example.org/routine.pdf'' ''1.0''"

definition call2 :: "(error + ClassSchedule list) \<times> Db option \<times> event list" where
  "call2 = getOrParsePdf okWorld ''/tmp/routine_2.pdf'' (days 31) (days 31) (dbAfter call1)
             ''cse'' ''https://example.org/routine.pdf'' ''1.0''"

definition call3 :: "(error + ClassSchedule list) \<times> Db option \<times> event list" where
  "call3 = getOrParsePdf okWorld ''/tmp/routine_3.pdf'' (days 32) (days 32) (dbAfter call2)
             ''cse'' ''https://example.org/routine.pdf'' ''1.0''"

text \<open>Entries on Sunday, on Saturday, and one whose day is not in upper case.\<close>

definition groupInput :: "ClassSchedule list" where
  "groupInput = [entryOn ''SUNDAY'' ''CSE112'' ''KT-222'',
                 entryOn ''SATURDAY'' ''CSE113'' ''KT-223'',
                 entryOn ''Saturday'' ''CSE114'' ''KT-224'']"

definition groupValues :: "ClassSchedule list \<Rightarrow> ClassSchedule list" where
  "groupValues cs = concat (map snd (groupByDay cs))"

text \<open>The scenario with the anchor written literally as in the specification.\<close>

definition scenarioLiteralText :: string where
  "scenarioLiteralText = scenarioWith ''<anchor> <anchor>''"

text \<open>The second instructor's line alone under the same header.\<close>

definition secondTeacherText :: string where
  "secondTeacherText = unlines [''SATURDAY'',
                                ''08:30-10:00'',
                                ''Course'',
                                ''KT-223CSE112(71_I)AST'']"

text \<open>The key of an entry as \<open>PDFParserV3.extractClasses\<close> builds it.\<close>

definition entryKey :: "ClassSchedule \<Rightarrow> string" where
  "entryKey c = uniqueKey (day c) (timeStart c) (courseCode c) (batchSection c)"

text \<open>Department, version and expiry of the cache records of a database.\<close>

definition recordsOf :: "Db option \<Rightarrow> (string \<times> string \<times> int) list" where
  "recordsOf dbo =
     (case dbo of
        None \<Rightarrow> []
      | Some db \<Rightarrow> map (\<lambda>c. (pc_department c, pc_version c, pc_expiresAt c)) (pdfCache db))"

definition validRecordExists :: "Db option \<Rightarrow> int \<Rightarrow> string \<Rightarrow> bool" where
  "validRecordExists dbo now department =
     (case dbo of None \<Rightarrow> False | Some db \<Rightarrow> hasValidRecord db now department)"

text \<open>A second call one day after the first, within the 30 days.\<close>

definition call1b :: "(error + ClassSchedule list) \<times> Db option \<times> event list" where
  "call1b = getOrParsePdf okWorld ''/tmp/routine_2.pdf'' (days 1) (days 1) (dbAfter call1)
              ''cse'' ''https://example.org/routine.pdf'' ''1.0''"

section \<open>Substring search\<close>

lemma startsWith_iff: "startsWith s t \<longleftrightarrow> (\<exists>suf. s = t @ suf)"
  by (induction s t rule: startsWith.induct) auto

lemma str_includes_iff: "str_includes s t \<longleftrightarrow> (\<exists>pre suf. s = pre @ t @ suf)"
proof (induction s)
  case Nil
  then show ?case by simp
next
  case (Cons c cs)
  show ?case
  proof
    assume "str_includes (c # cs) t"
    then consider "startsWith (c # cs) t" | "str_includes cs t" by auto
    then show "\<exists>pre suf. c # cs = pre @ t @ suf"
    proof cases
      case 1
      then obtain suf where "c # cs = t @ suf" using startsWith_iff by blast
      then have "c # cs = [] @ t @ suf" by simp
      then show ?thesis by blast
    next
      case 2
      then obtain pre suf where "cs = pre @ t @ suf" using Cons.IH by blast
      then have "c # cs = (c # pre) @ t @ suf" by simp
      then show ?thesis by blast
    qed
  next
    assume "\<exists>pre suf. c # cs = pre @ t @ suf"
    then obtain pre suf where eq: "c # cs = pre @ t @ suf" by blast
    show "str_includes (c # cs) t"
    proof (cases pre)
      case Nil
      then have "startsWith (c # cs) t" using eq startsWith_iff by auto
      then show ?thesis by simp
    next
      case (Cons p ps)
      then have "cs = ps @ t @ suf" using eq by simp
      then have "str_includes cs t" using Cons.IH by blast
      then show ?thesis by simp
    qed
  qed
qed

section \<open>Filtering by room\<close>

text \<open>
  Claim C10: for every entries list and every query \<open>q\<close>, \<open>filterByRoom(entries, q)\<close>
  returns exactly the entries whose room contains \<open>q.toUpperCase()\<close> as a contiguous
  substring, in their order; \<open>upper\<close> stands for the upper-casing of the language and
  the statement holds whatever it maps the query to. The room itself is not
  upper-cased, so a query that equals a room up to case matches nothing when the room
  has a lower-case letter (the witness shows one, on ASCII strings).
\<close>

theorem filterByRoom_substring:
  "filterByRoom upper cs q = filter (\<lambda>c. \<exists>pre suf. room c = pre @ upper q @ suf) cs"
  by (simp add: filterByRoom_def str_includes_iff)

theorem filterByRoom_substring_witness:
  "filterByRoom toUpperCase [entryOn ''SATURDAY'' ''CSE112'' ''KT-222'',
                             entryOn ''SATURDAY'' ''CSE113'' ''Kt-222'',
                             entryOn ''SUNDAY'' ''CSE114'' ''G1-020 (LAB)''] ''kt-2''
   = [entryOn ''SATURDAY'' ''CSE112'' ''KT-222'']
   \<and> toUpperCase ''Kt-222'' = toUpperCase ''kt-222''
   \<and> filterByRoom toUpperCase [entryOn ''SATURDAY'' ''CSE113'' ''Kt-222''] ''kt-222'' = []"
proof -
  have a: "toUpperCase ''kt-2'' = ''KT-2''" "toUpperCase ''kt-222'' = ''KT-222''"
    "toUpperCase ''Kt-222'' = ''KT-222''"
    by code_simp+
  have r: "room (entryOn d code r) = r" for d code r
    by (simp add: entryOn_def)
  have i1: "\<exists>pre suf. ''KT-222'' = pre @ ''KT-2'' @ suf"
    by (rule exI [of _ "[]"], rule exI [of _ "''22''"]) simp
  have n2: "\<not> str_includes ''Kt-222'' ''KT-2''" by code_simp
  have n3: "\<not> str_includes ''G1-020 (LAB)'' ''KT-2''" by code_simp
  have n4: "\<not> str_includes ''Kt-222'' ''KT-222''" by code_simp
  show ?thesis
    using filterByRoom_substring [of toUpperCase "[entryOn ''SATURDAY'' ''CSE112'' ''KT-222'',
                 entryOn ''SATURDAY'' ''CSE113'' ''Kt-222'',
                 entryOn ''SUNDAY'' ''CSE114'' ''G1-020 (LAB)'']" "''kt-2''"]
      filterByRoom_substring [of toUpperCase "[entryOn ''SATURDAY'' ''CSE113'' ''Kt-222'']"
        "''kt-222''"]
      i1 n2 n3 n4
    by (simp add: a r str_includes_iff del: append_eq_Cons_conv Cons_eq_append_conv)
qed

text \<open>The teacher filter compares the two upper-cased strings as wholes.\<close>

lemma filterByTeacher_set:
  "set (filterByTeacher upper cs q) = {c \<in> set cs. upper (teacher c) = upper q}"
  by (simp add: filterByTeacher_def)

section \<open>Grouping by day\<close>

lemma formatDay_DAYS:
  "formatDay ''SATURDAY'' = ''Saturday''" "formatDay ''SUNDAY'' = ''Sunday''"
  "formatDay ''MONDAY'' = ''Monday''" "formatDay ''TUESDAY'' = ''Tuesday''"
  "formatDay ''WEDNESDAY'' = ''Wednesday''" "formatDay ''THURSDAY'' = ''Thursday''"
  "formatDay ''FRIDAY'' = ''Friday''"
  by code_simp+

lemma groupByDay_unfold:
  "groupByDay cs =
    [(''Saturday'', filter (\<lambda>c. day c = ''SATURDAY'') cs),
     (''Sunday'', filter (\<lambda>c. day c = ''SUNDAY'') cs),
     (''Monday'', filter (\<lambda>c. day c = ''MONDAY'') cs),
     (''Tuesday'', filter (\<lambda>c. day c = ''TUESDAY'') cs),
     (''Wednesday'', filter (\<lambda>c. day c = ''WEDNESDAY'') cs),
     (''Thursday'', filter (\<lambda>c. day c = ''THURSDAY'') cs),
     (''Friday'', filter (\<lambda>c. day c = ''FRIDAY'') cs)]"
  unfolding groupByDay_def DAYS_def by (simp add: formatDay_DAYS)

lemma distinct_DAYS: "distinct DAYS"
  by (simp add: DAYS_def)

lemma mset_concat_filters:
  "distinct ds \<Longrightarrow>
   mset (concat (map (\<lambda>d. filter (\<lambda>c. f c = d) cs) ds)) = mset (filter (\<lambda>c. f c \<in> set ds) cs)"
proof (induction ds)
  case Nil
  then show ?case by simp
next
  case (Cons d ds)
  have "mset (filter (\<lambda>c. f c \<in> set (d # ds)) cs)
        = mset (filter (\<lambda>c. f c = d) cs) + mset (filter (\<lambda>c. f c \<in> set ds) cs)"
    using Cons.prems by (induction cs) auto
  then show ?case using Cons by simp
qed

lemma groupValues_eq:
  "groupValues cs = concat (map (\<lambda>d. filter (\<lambda>c. day c = d) cs) DAYS)"
  by (simp add: groupValues_def groupByDay_unfold DAYS_def)

text \<open>
  Claim C4, as amended: \<open>groupByDay\<close> returns exactly the seven keys Saturday to
  Friday, each present even when its list is empty; the seven values are the
  sub-lists of the entries of each upper-case weekday, in the input's order. Their
  concatenation holds exactly the entries whose day is one of the seven upper-case
  names, each once, ordered by weekday: it is a permutation of the input when every
  entry has such a day, and an entry with any other day is in no group.
\<close>

theorem groupByDay_seven_keys_permutation:
  "map fst (groupByDay cs) =
     [''Saturday'', ''Sunday'', ''Monday'', ''Tuesday'', ''Wednesday'', ''Thursday'', ''Friday'']
   \<and> map snd (groupByDay cs) = map (\<lambda>d. filter (\<lambda>c. day c = d) cs) DAYS
   \<and> mset (groupValues cs) = mset (filter (\<lambda>c. day c \<in> set DAYS) cs)
   \<and> ((\<forall>c \<in> set cs. day c \<in> set DAYS) \<longrightarrow> mset (groupValues cs) = mset cs)"
proof -
  have k: "map fst (groupByDay cs) =
     [''Saturday'', ''Sunday'', ''Monday'', ''Tuesday'', ''Wednesday'', ''Thursday'', ''Friday'']"
    by (simp add: groupByDay_unfold)
  have v: "map snd (groupByDay cs) = map (\<lambda>d. filter (\<lambda>c. day c = d) cs) DAYS"
    by (simp add: groupByDay_unfold DAYS_def)
  have m: "mset (groupValues cs) = mset (filter (\<lambda>c. day c \<in> set DAYS) cs)"
    unfolding groupValues_eq by (rule mset_concat_filters [OF distinct_DAYS])
  have a: "mset (groupValues cs) = mset cs" if "\<forall>c \<in> set cs. day c \<in> set DAYS"
  proof -
    have "filter (\<lambda>c. day c \<in> set DAYS) cs = cs" using that by (simp add: filter_id_conv)
    then show ?thesis using m by simp
  qed
  show ?thesis using k v m a by blast
qed

theorem groupByDay_seven_keys_permutation_witness:
  "length (map fst (groupByDay (take 2 groupInput))) = 7
   \<and> map day (take 2 groupInput) = [''SUNDAY'', ''SATURDAY'']
   \<and> mset (groupValues (take 2 groupInput)) = mset (take 2 groupInput)"
proof -
  have d: "map day (take 2 groupInput) = [''SUNDAY'', ''SATURDAY'']"
    by (simp add: groupInput_def entryOn_def)
  have h: "\<forall>c \<in> set (take 2 groupInput). day c \<in> set DAYS"
    by (simp add: groupInput_def entryOn_def DAYS_def)
  show ?thesis
    using groupByDay_seven_keys_permutation [of "take 2 groupInput"] h d by simp
qed

text \<open>
  Claim C4 as stated fails: for a Sunday entry followed by a Saturday entry and an
  entry whose day is written \<open>Saturday\<close>, the concatenation of the groups is the
  Saturday entry followed by the Sunday entry. It is not the input list, and not a
  permutation of it.
\<close>

theorem groupByDay_concat_counterexample:
  "groupValues groupInput = [groupInput ! 1, groupInput ! 0]
   \<and> groupValues groupInput \<noteq> groupInput
   \<and> mset (groupValues groupInput) \<noteq> mset groupInput"
proof -
  have e: "groupValues groupInput = [groupInput ! 1, groupInput ! 0]"
    by (simp add: groupValues_eq DAYS_def groupInput_def entryOn_def)
  have l: "length (groupValues groupInput) = 2" using e by simp
  have l3: "length groupInput = 3" by (simp add: groupInput_def)
  have n: "groupValues groupInput \<noteq> groupInput"
    using l l3 by auto
  have "mset (groupValues groupInput) \<noteq> mset groupInput"
  proof
    assume "mset (groupValues groupInput) = mset groupInput"
    then have "length (groupValues groupInput) = length groupInput"
      by (rule mset_eq_length)
    then show False using l l3 by simp
  qed
  then show ?thesis using e n by simp
qed

section \<open>Statistics\<close>

text \<open>
  Claim C3 at the empty list: \<open>PDFParserV3.calculateStats\<close> reports Saturday as the
  busiest and the lightest day, with counts 0, where the claim asks for the label
  \<open>N/A\<close>. \<open>PDFParserV2.calculateStats\<close>, which has the guard for the empty list in
  front of the same loop, answers \<open>N/A\<close>.
\<close>

theorem calculateStats_empty:
  "calculateStats [] =
     \<lparr>totalClasses = 0, busiestDay = ''Saturday'', lightestDay = ''Saturday'',
      busiestDayCount = 0, lightestDayCount = 0\<rparr>
   \<and> calculateStatsV2 [] =
     \<lparr>totalClasses = 0, busiestDay = ''N/A'', lightestDay = ''N/A'',
      busiestDayCount = 0, lightestDayCount = 0\<rparr>"
proof -
  have "calculateStats [] =
     \<lparr>totalClasses = 0, busiestDay = ''Saturday'', lightestDay = ''Saturday'',
      busiestDayCount = 0, lightestDayCount = 0\<rparr>"
    by code_simp
  moreover have "calculateStatsV2 [] =
     \<lparr>totalClasses = 0, busiestDay = ''N/A'', lightestDay = ''N/A'',
      busiestDayCount = 0, lightestDayCount = 0\<rparr>"
    by (simp add: calculateStatsV2_def)
  ultimately show ?thesis by simp
qed

text \<open>
  The lightest day of \<open>calculateStats\<close> over any list of days: while no day with a
  class has been seen the initial day stays; afterwards it is a day seen, with the
  least positive count of the days seen.
\<close>

lemma lightest_invariant:
  "case foldl (statsStep cs) (b0, bc0, l0, None) ds of
     (b, bc, l, lc) \<Rightarrow>
       (case lc of
          None \<Rightarrow> (\<forall>d \<in> set ds. dayCount cs d = 0) \<and> l = l0
        | Some n \<Rightarrow> 0 < n \<and> l \<in> set ds \<and> dayCount cs l = n
                    \<and> (\<forall>d \<in> set ds. 0 < dayCount cs d \<longrightarrow> n \<le> dayCount cs d))"
proof (induction ds rule: rev_induct)
  case Nil
  then show ?case by simp
next
  case (snoc d ds)
  obtain b bc l lc where f: "foldl (statsStep cs) (b0, bc0, l0, None) ds = (b, bc, l, lc)"
    by (cases "foldl (statsStep cs) (b0, bc0, l0, None) ds") auto
  from snoc f have ih: "case lc of
          None \<Rightarrow> (\<forall>d \<in> set ds. dayCount cs d = 0) \<and> l = l0
        | Some n \<Rightarrow> 0 < n \<and> l \<in> set ds \<and> dayCount cs l = n
                    \<and> (\<forall>d \<in> set ds. 0 < dayCount cs d \<longrightarrow> n \<le> dayCount cs d)"
    by simp
  have s: "foldl (statsStep cs) (b0, bc0, l0, None) (ds @ [d]) = statsStep cs (b, bc, l, lc) d"
    using f by simp
  show ?case
  proof (cases lc)
    case None
    with ih have z: "\<forall>d \<in> set ds. dayCount cs d = 0" "l = l0" by simp_all
    show ?thesis
      unfolding s using None z by (auto simp: statsStep_def Let_def)
  next
    case (Some n)
    with ih have p: "0 < n" "l \<in> set ds" "dayCount cs l = n"
      "\<forall>d \<in> set ds. 0 < dayCount cs d \<longrightarrow> n \<le> dayCount cs d" by simp_all
    show ?thesis
      unfolding s using Some p by (fastforce simp: statsStep_def Let_def)
  qed
qed

lemma calculateStats_lightest:
  assumes "d0 \<in> set DAYS" "0 < dayCount cs d0"
  shows "\<exists>l \<in> set DAYS. lightestDay (calculateStats cs) = formatDay l
           \<and> lightestDayCount (calculateStats cs) = dayCount cs l
           \<and> 0 < dayCount cs l
           \<and> (\<forall>d \<in> set DAYS. 0 < dayCount cs d \<longrightarrow> dayCount cs l \<le> dayCount cs d)"
proof -
  obtain b bc l lc where
    f: "foldl (statsStep cs) (DAYS ! 0, 0, DAYS ! 0, None) DAYS = (b, bc, l, lc)"
    by (cases "foldl (statsStep cs) (DAYS ! 0, 0, DAYS ! 0, None) DAYS") auto
  from lightest_invariant [where cs = cs and ds = DAYS and ?b0.0 = "DAYS ! 0" and ?bc0.0 = 0
      and ?l0.0 = "DAYS ! 0"] f
  have i: "case lc of
          None \<Rightarrow> (\<forall>d \<in> set DAYS. dayCount cs d = 0) \<and> l = DAYS ! 0
        | Some n \<Rightarrow> 0 < n \<and> l \<in> set DAYS \<and> dayCount cs l = n
                    \<and> (\<forall>d \<in> set DAYS. 0 < dayCount cs d \<longrightarrow> n \<le> dayCount cs d)"
    by simp
  show ?thesis
  proof (cases lc)
    case None
    with i assms show ?thesis by auto
  next
    case (Some n)
    with i have "l \<in> set DAYS" "dayCount cs l = n" "0 < n"
      "\<forall>d \<in> set DAYS. 0 < dayCount cs d \<longrightarrow> n \<le> dayCount cs d" by simp_all
    moreover have "lightestDay (calculateStats cs) = formatDay l"
      "lightestDayCount (calculateStats cs) = n"
      using f Some by (simp_all add: calculateStats_def)
    ultimately show ?thesis by auto
  qed
qed

text \<open>
  When no entry is on one of the seven upper-case days (the empty list, or entries
  whose days are written otherwise), Saturday is reported with the count 0.
\<close>

lemma calculateStats_no_canonical_day:
  assumes "\<forall>d \<in> set DAYS. dayCount cs d = 0"
  shows "lightestDay (calculateStats cs) = ''Saturday''
         \<and> lightestDayCount (calculateStats cs) = 0"
proof -
  obtain b bc l lc where
    f: "foldl (statsStep cs) (DAYS ! 0, 0, DAYS ! 0, None) DAYS = (b, bc, l, lc)"
    by (cases "foldl (statsStep cs) (DAYS ! 0, 0, DAYS ! 0, None) DAYS") auto
  from lightest_invariant [where cs = cs and ds = DAYS and ?b0.0 = "DAYS ! 0" and ?bc0.0 = 0
      and ?l0.0 = "DAYS ! 0"] f
  have i: "case lc of
          None \<Rightarrow> (\<forall>d \<in> set DAYS. dayCount cs d = 0) \<and> l = DAYS ! 0
        | Some n \<Rightarrow> 0 < n \<and> l \<in> set DAYS \<and> dayCount cs l = n
                    \<and> (\<forall>d \<in> set DAYS. 0 < dayCount cs d \<longrightarrow> n \<le> dayCount cs d)"
    by simp
  have "lc = None"
  proof (cases lc)
    case None
    then show ?thesis .
  next
    case (Some n)
    with i assms show ?thesis by auto
  qed
  with i have "l = DAYS ! 0" by simp
  moreover have "formatDay (DAYS ! 0) = ''Saturday''" by code_simp
  ultimately show ?thesis using f \<open>lc = None\<close> by (simp add: calculateStats_def)
qed

section \<open>Failures of the parse\<close>

lemma parse_fetch_fails:
  "httpGet w url = Inl cause \<Longrightarrow>
   parsePDFFromURL w tmp url = (Inl (Error (''Failed to parse PDF: '' @ cause)), [Download url])"
  by (simp add: parsePDFFromURL_def failed_def)

lemma parse_extract_fails:
  "httpGet w url = Inr bytes \<Longrightarrow> writeFile w tmp = None \<Longrightarrow> pdftotext w bytes = Inl cause \<Longrightarrow>
   parsePDFFromURL w tmp url =
     (Inl (Error (''Failed to parse PDF: '' @ cause)),
      [Download url, WriteFile tmp, Exec tmp, Unlink tmp])"
  by (simp add: parsePDFFromURL_def failed_def)

text \<open>
  Claim C8, as amended: a failed download and a failed text extraction both abort
  \<open>parsePDFFromURL\<close> with the same kind of error, a plain \<open>Error\<close> whose message is
  \<open>Failed to parse PDF: \<close> followed by the text of the cause. The trace shows one
  download and no second attempt; after a failed extraction the temporary file is
  unlinked.
\<close>

theorem parsePDFFromURL_failures_same_kind:
  "(httpGet w url = Inl cause \<longrightarrow>
      parsePDFFromURL w tmp url =
        (Inl (Error (''Failed to parse PDF: '' @ cause)), [Download url]))
   \<and> (httpGet w url = Inr bytes \<and> writeFile w tmp = None \<and> pdftotext w bytes = Inl cause \<longrightarrow>
      parsePDFFromURL w tmp url =
        (Inl (Error (''Failed to parse PDF: '' @ cause)),
         [Download url, WriteFile tmp, Exec tmp, Unlink tmp]))"
  using parse_fetch_fails parse_extract_fails by blast

theorem parsePDFFromURL_failures_same_kind_witness:
  "httpGet (fetchFails ''AxiosError: timeout of 30000ms exceeded'') ''u''
     = Inl ''AxiosError: timeout of 30000ms exceeded''
   \<and> parsePDFFromURL (fetchFails ''AxiosError: timeout of 30000ms exceeded'') ''t'' ''u''
     = (Inl (Error ''Failed to parse PDF: AxiosError: timeout of 30000ms exceeded''),
        [Download ''u''])
   \<and> httpGet (extractFails ''Error: Command failed'') ''u'' = Inr ''%PDF''
   \<and> writeFile (extractFails ''Error: Command failed'') ''t'' = None
   \<and> pdftotext (extractFails ''Error: Command failed'') ''%PDF'' = Inl ''Error: Command failed''
   \<and> parsePDFFromURL (extractFails ''Error: Command failed'') ''t'' ''u''
     = (Inl (Error ''Failed to parse PDF: Error: Command failed''),
        [Download ''u'', WriteFile ''t'', Exec ''t'', Unlink ''t''])"
proof -
  have a: "httpGet (fetchFails ''AxiosError: timeout of 30000ms exceeded'') ''u''
     = Inl ''AxiosError: timeout of 30000ms exceeded''"
    by (simp add: fetchFails_def)
  have b: "httpGet (extractFails ''Error: Command failed'') ''u'' = Inr ''%PDF''"
    "writeFile (extractFails ''Error: Command failed'') ''t'' = None"
    "pdftotext (extractFails ''Error: Command failed'') ''%PDF'' = Inl ''Error: Command failed''"
    by (simp_all add: extractFails_def)
  show ?thesis
    using a b
      parsePDFFromURL_failures_same_kind [of "fetchFails ''AxiosError: timeout of 30000ms exceeded''"
        "''u''" "''AxiosError: timeout of 30000ms exceeded''" "''t''" "''%PDF''"]
      parsePDFFromURL_failures_same_kind [of "extractFails ''Error: Command failed''"
        "''u''" "''Error: Command failed''" "''t''" "''%PDF''"]
    by simp
qed

text \<open>
  Claim C8 as stated fails: a download that fails and an extraction that fails with
  the same cause text surface as equal errors, so the caller cannot tell the two
  kinds apart.
\<close>

theorem parsePDFFromURL_kinds_counterexample:
  "fst (parsePDFFromURL (fetchFails ''Error: socket hang up'') ''/tmp/routine_1.pdf''
          ''https://example.org/routine.pdf'')
   = fst (parsePDFFromURL (extractFails ''Error: socket hang up'') ''/tmp/routine_1.pdf''
          ''https://example.org/routine.pdf'')"
  by (simp add: parsePDFFromURL_def fetchFails_def extractFails_def)

section \<open>A failed parse writes nothing\<close>

text \<open>
  Claim C6: when the parse of the document fails, \<open>getOrParsePdf\<close> leaves the
  database as it was: no cache record and no class row is written, and the records
  already there stay.
\<close>

theorem getOrParsePdf_failed_parse_writes_nothing:
  assumes "fst (parsePDFFromURL w tmp pdfUrl) = Inl e"
  shows "dbAfter (getOrParsePdf w tmp now later dbo department pdfUrl version) = dbo"
proof (cases dbo)
  case None
  then show ?thesis by (simp add: getOrParsePdf_def dbAfter_def)
next
  case (Some db)
  obtain r tr where p: "parsePDFFromURL w tmp pdfUrl = (r, tr)" by (cases "parsePDFFromURL w tmp pdfUrl")
  with assms have r: "r = Inl e" by simp
  show ?thesis
    using Some p r
    by (simp add: getOrParsePdf_def dbAfter_def Let_def split: option.splits)
qed

theorem getOrParsePdf_failed_parse_writes_nothing_witness:
  "fst (parsePDFFromURL (fetchFails ''AxiosError: timeout of 30000ms exceeded'')
          ''/tmp/routine_2.pdf'' ''https://example.org/routine.pdf'')
     = Inl (failed ''AxiosError: timeout of 30000ms exceeded'')
   \<and> dbAfter (getOrParsePdf (fetchFails ''AxiosError: timeout of 30000ms exceeded'')
               ''/tmp/routine_2.pdf'' (days 31) (days 31) (dbAfter call1) ''cse''
               ''https://example.org/routine.pdf'' ''1.0'')
     = dbAfter call1"
proof -
  have h: "fst (parsePDFFromURL (fetchFails ''AxiosError: timeout of 30000ms exceeded'')
          ''/tmp/routine_2.pdf'' ''https://example.org/routine.pdf'')
     = Inl (failed ''AxiosError: timeout of 30000ms exceeded'')"
    by (simp add: parsePDFFromURL_def fetchFails_def)
  show ?thesis
    using h getOrParsePdf_failed_parse_writes_nothing [OF h] by simp
qed

section \<open>Matches take characters\<close>

lemma startsWith_length: "startsWith s t \<Longrightarrow> length t \<le> length s"
  by (induction s t rule: startsWith.induct) auto

lemma rx_match_bounds:
  "(j, s', c') \<in> set (rx_match r (i, s, c)) \<Longrightarrow>
   i + minLen r \<le> j \<and> j \<le> i + length s \<and> s' = drop (j - i) s"
proof (induction r arbitrary: i s c j s' c')
  case (Cls p)
  then show ?case by (cases s) (auto split: if_splits)
next
  case (Lit l)
  then show ?case by (auto split: if_splits dest: startsWith_length)
next
  case (Rep lo hi p)
  have "length (takeWhile p s) \<le> length s" by (rule length_takeWhile_le)
  with Rep show ?case by (auto simp: Let_def split: option.splits)
next
  case (Seq a b)
  from Seq.prems obtain k s1 c1 where
    a: "(k, s1, c1) \<in> set (rx_match a (i, s, c))" and
    b: "(j, s', c') \<in> set (rx_match b (k, s1, c1))"
    by auto
  from Seq.IH(1) [OF a] have 1: "i + minLen a \<le> k" "k \<le> i + length s" "s1 = drop (k - i) s"
    by auto
  from Seq.IH(2) [OF b] have 2: "k + minLen b \<le> j" "j \<le> k + length s1" "s' = drop (j - k) s1"
    by auto
  have "s' = drop (j - i) s" using 1 2 by simp
  moreover have "j \<le> i + length s" using 1 2 by simp
  moreover have "i + minLen (Seq a b) \<le> j" using 1 2 by simp
  ultimately show ?case by simp
next
  case (Alt a b)
  from Alt.prems consider "(j, s', c') \<in> set (rx_match a (i, s, c))"
    | "(j, s', c') \<in> set (rx_match b (i, s, c))" by auto
  then show ?case
  proof cases
    case 1
    from Alt.IH(1) [OF 1] show ?thesis by (auto simp: min_def)
  next
    case 2
    from Alt.IH(2) [OF 2] show ?thesis by (auto simp: min_def)
  qed
next
  case (Opt a)
  from Opt.prems consider "(j, s', c') \<in> set (rx_match a (i, s, c))"
    | "(j, s', c') = (i, s, c)" by auto
  then show ?case
  proof cases
    case 1
    from Opt.IH [OF 1] show ?thesis by simp
  next
    case 2
    then show ?thesis by simp
  qed
next
  case (Grp n a)
  from Grp.prems obtain c1 where "(j, s', c1) \<in> set (rx_match a (i, s, c))" by auto
  from Grp.IH [OF this] show ?case by simp
next
  case Bol
  then show ?case by (auto split: if_splits)
next
  case Eol
  then show ?case by (auto split: if_splits)
qed

lemma match_at_bounds:
  "match_at r i s = Some (k, j, c) \<Longrightarrow> k = i \<and> i + minLen r \<le> j \<and> j \<le> i + length s"
proof -
  assume m: "match_at r i s = Some (k, j, c)"
  then obtain s' rest where e: "rx_match r (i, s, []) = (j, s', c) # rest" and k: "k = i"
    by (auto simp: match_at_def split: list.splits)
  then have "(j, s', c) \<in> set (rx_match r (i, s, []))" by simp
  from rx_match_bounds [OF this] k show ?thesis by simp
qed

lemma rx_search_bounds:
  "rx_search r i s = Some (k, j, c) \<Longrightarrow> i \<le> k \<and> k + minLen r \<le> j \<and> j \<le> i + length s"
proof (induction s arbitrary: i)
  case Nil
  then show ?case using match_at_bounds [of r i "[]" k j c] by simp
next
  case (Cons x xs)
  show ?case
  proof (cases "match_at r i (x # xs)")
    case None
    with Cons.prems have "rx_search r (Suc i) xs = Some (k, j, c)" by simp
    from Cons.IH [OF this] show ?thesis by simp
  next
    case (Some m)
    with Cons.prems have "match_at r i (x # xs) = Some (k, j, c)" by simp
    from match_at_bounds [OF this] show ?thesis by simp
  qed
qed

lemma rx_search_progress:
  "0 < minLen r \<Longrightarrow> rx_search r i s = Some (k, j, c) \<Longrightarrow> i < j \<and> j \<le> i + length s"
  using rx_search_bounds [of r i s k j c] by simp

text \<open>
  The three expressions searched in a loop take at least one character, so the
  loop of \<open>rx_all\<close> never meets an empty match.
\<close>

lemma minLen_global_patterns:
  "minLen coursePattern = 12" "minLen timePattern = 11" "minLen courseHeaderPattern = 6"
  by (simp_all add: coursePattern_def timePattern_def courseHeaderPattern_def)

lemma rx_all_unfold:
  assumes "0 < minLen r"
  shows "rx_all r i s =
           (case rx_search r i s of
              None \<Rightarrow> []
            | Some (k, j, c) \<Rightarrow> (k, j, c) # rx_all r j (drop (j - i) s))"
proof (cases "rx_search r i s")
  case None
  then show ?thesis by simp
next
  case (Some m)
  obtain k j c where m: "m = (k, j, c)" by (cases m)
  from rx_search_progress [OF assms] Some m have "i < j \<and> j \<le> i + length s" by simp
  then show ?thesis using Some m by simp
qed

section \<open>Deduplication\<close>

lemma processMatch_inv:
  assumes "distinct (map entryKey (result st))" "set (map entryKey (result st)) \<subseteq> set (seen st)"
  shows "distinct (map entryKey (result (processMatch line st m)))
         \<and> set (map entryKey (result (processMatch line st m))) \<subseteq> set (seen (processMatch line st m))"
proof (cases m)
  case (fields p e c)
  show ?thesis
  proof (cases "timeSlots st")
    case Nil
    then show ?thesis using assms fields by (simp add: processMatch_def)
  next
    case (Cons first rest)
    then show ?thesis
      using assms fields
      by (auto simp: processMatch_def Let_def entryKey_def)
  qed
qed

lemma foldl_processMatch_inv:
  "distinct (map entryKey (result st)) \<Longrightarrow> set (map entryKey (result st)) \<subseteq> set (seen st) \<Longrightarrow>
   distinct (map entryKey (result (foldl (processMatch line) st ms)))
   \<and> set (map entryKey (result (foldl (processMatch line) st ms)))
       \<subseteq> set (seen (foldl (processMatch line) st ms))"
proof (induction ms arbitrary: st)
  case Nil
  then show ?case by simp
next
  case (Cons m ms)
  from processMatch_inv [OF Cons.prems, of line m]
  show ?case using Cons.IH [of "processMatch line st m"] by simp
qed

lemma step_inv:
  assumes "distinct (map entryKey (result st))" "set (map entryKey (result st)) \<subseteq> set (seen st)"
  shows "distinct (map entryKey (result (step line following st)))
         \<and> set (map entryKey (result (step line following st)))
             \<subseteq> set (seen (step line following st))"
  using assms foldl_processMatch_inv [OF assms, of line "rx_all coursePattern 0 line"]
  by (simp add: step_def Let_def)

lemma run_inv:
  "distinct (map entryKey (result st)) \<Longrightarrow> set (map entryKey (result st)) \<subseteq> set (seen st) \<Longrightarrow>
   distinct (map entryKey (result (run ls st)))"
proof (induction ls arbitrary: st)
  case Nil
  then show ?case by simp
next
  case (Cons l ls)
  from step_inv [OF Cons.prems, of l ls]
  show ?case using Cons.IH [of "step l ls st"] by simp
qed

text \<open>No two entries of a parse share the four fields of the key, so none share six.\<close>

lemma extractClasses_distinct_keys: "distinct (map entryKey (extractClasses doc))"
  unfolding extractClasses_def by (rule run_inv) (simp_all add: initial_def)

lemma extractClasses_distinct_sixFields: "distinct (map sixFields (extractClasses doc))"
proof -
  define g :: "string \<times> string \<times> string \<times> string \<times> string \<times> string \<Rightarrow> string"
    where "g = (\<lambda>(d, t, code, bs, tch, rm). uniqueKey d t code bs)"
  have e: "map entryKey (extractClasses doc) = map g (map sixFields (extractClasses doc))"
    by (simp add: g_def entryKey_def sixFields_def)
  have "distinct (map entryKey (extractClasses doc))"
    by (rule extractClasses_distinct_keys)
  then have "distinct (map g (map sixFields (extractClasses doc)))"
    by (simp only: e)
  then show ?thesis by (simp only: distinct_map)
qed

text \<open>
  Claim C1 at a document where one section has two instructors in the same slot:
  the two candidates differ in teacher and in room, and \<open>PDFParserV3.extractClasses\<close>
  keeps the first only, its key being day, start time, course code and batch section.
  The second line alone under the same header gives the entry that is lost.
\<close>

theorem extractClasses_drops_second_teacher:
  "extractClasses twoTeachersText =
     [\<lparr>day = ''SATURDAY'', timeStart = ''08:30'', timeEnd = ''10:00'', courseCode = ''CSE112'',
       courseName = ''Computer Fundamentals'', batch = ''71'', sect = ''I'', room = ''KT-222'',
       teacher = ''MB'', batchSection = ''71_I''\<rparr>]
   \<and> extractClasses secondTeacherText =
     [\<lparr>day = ''SATURDAY'', timeStart = ''08:30'', timeEnd = ''10:00'', courseCode = ''CSE112'',
       courseName = ''Computer Fundamentals'', batch = ''71'', sect = ''I'', room = ''KT-223'',
       teacher = ''AST'', batchSection = ''71_I''\<rparr>]"
proof -
  have a: "extractClasses twoTeachersText =
     [\<lparr>day = ''SATURDAY'', timeStart = ''08:30'', timeEnd = ''10:00'', courseCode = ''CSE112'',
       courseName = ''Computer Fundamentals'', batch = ''71'', sect = ''I'', room = ''KT-222'',
       teacher = ''MB'', batchSection = ''71_I''\<rparr>]"
    by code_simp
  have b: "extractClasses secondTeacherText =
     [\<lparr>day = ''SATURDAY'', timeStart = ''08:30'', timeEnd = ''10:00'', courseCode = ''CSE112'',
       courseName = ''Computer Fundamentals'', batch = ''71'', sect = ''I'', room = ''KT-223'',
       teacher = ''AST'', batchSection = ''71_I''\<rparr>]"
    by code_simp
  show ?thesis using a b by simp
qed

section \<open>The days of the entries\<close>

text \<open>
  Every entry carries the day of the last header above it, as one of the seven
  upper-case names.
\<close>

lemma processMatch_days:
  assumes "currentDay st \<in> set DAYS" "\<forall>c \<in> set (result st). day c \<in> set DAYS"
  shows "currentDay (processMatch line st m) = currentDay st
         \<and> (\<forall>c \<in> set (result (processMatch line st m)). day c \<in> set DAYS)"
proof (cases m)
  case (fields p e c)
  show ?thesis
  proof (cases "timeSlots st")
    case Nil
    then show ?thesis using assms fields by (simp add: processMatch_def)
  next
    case (Cons first rest)
    then show ?thesis
      using assms fields by (auto simp: processMatch_def Let_def)
  qed
qed

lemma foldl_processMatch_days:
  "currentDay st \<in> set DAYS \<Longrightarrow> \<forall>c \<in> set (result st). day c \<in> set DAYS \<Longrightarrow>
   currentDay (foldl (processMatch line) st ms) = currentDay st
   \<and> (\<forall>c \<in> set (result (foldl (processMatch line) st ms)). day c \<in> set DAYS)"
proof (induction ms arbitrary: st)
  case Nil
  then show ?case by simp
next
  case (Cons m ms)
  from processMatch_days [OF Cons.prems, of line m]
  have 1: "currentDay (processMatch line st m) = currentDay st"
    "\<forall>c \<in> set (result (processMatch line st m)). day c \<in> set DAYS" by simp_all
  from 1(1) Cons.prems(1) have 2: "currentDay (processMatch line st m) \<in> set DAYS" by simp
  from Cons.IH [OF 2 1(2)] 1(1) show ?case by simp
qed

lemma step_days:
  assumes "currentDay st = [] \<or> currentDay st \<in> set DAYS"
    "\<forall>c \<in> set (result st). day c \<in> set DAYS"
  shows "(currentDay (step line following st) = []
          \<or> currentDay (step line following st) \<in> set DAYS)
         \<and> (\<forall>c \<in> set (result (step line following st)). day c \<in> set DAYS)"
proof (cases "currentDay st = []")
  case True
  then show ?thesis using assms by (simp add: step_def Let_def)
next
  case False
  with assms have d: "currentDay st \<in> set DAYS" by simp
  from foldl_processMatch_days [OF d assms(2), of line "rx_all coursePattern 0 line"] assms d
  show ?thesis by (simp add: step_def Let_def)
qed

lemma run_days:
  "currentDay st = [] \<or> currentDay st \<in> set DAYS \<Longrightarrow>
   \<forall>c \<in> set (result st). day c \<in> set DAYS \<Longrightarrow>
   \<forall>c \<in> set (result (run ls st)). day c \<in> set DAYS"
proof (induction ls arbitrary: st)
  case Nil
  then show ?case by simp
next
  case (Cons l ls)
  from step_days [OF Cons.prems, of l ls]
  show ?case using Cons.IH [of "step l ls st"] by simp
qed

lemma extractClasses_days: "\<forall>c \<in> set (extractClasses doc). day c \<in> set DAYS"
  unfolding extractClasses_def by (rule run_days) (simp_all add: initial_def)

lemma extractClasses_day_upper_case: "c \<in> set (extractClasses doc) \<Longrightarrow> day c \<noteq> ''Saturday''"
  using extractClasses_days [of doc] by (auto simp: DAYS_def)

section \<open>The scenario of the specification\<close>


text \<open>The columns of the two anchor lines, and the offsets of the two course codes.\<close>

lemma scenario_columns:
  "buildTimeSlots (extractTimes ''08:30-10:00  10:00-11:30'')
     (extractColumnPositions ''      Course                Course'')
   = [\<lparr>slotStart = ''08:30'', slotEnd = ''10:00'', columnStart = 0, columnEnd = 17\<rparr>,
      \<lparr>slotStart = ''10:00'', slotEnd = ''11:30'', columnStart = 17, columnEnd = 300\<rparr>]"
  "buildTimeSlots (extractTimes ''08:30-10:00  10:00-11:30'')
     (extractColumnPositions ''Room Course Teacher Room Course Teacher'')
   = [\<lparr>slotStart = ''08:30'', slotEnd = ''10:00'', columnStart = 0, columnEnd = 15\<rparr>,
      \<lparr>slotStart = ''10:00'', slotEnd = ''11:30'', columnStart = 15, columnEnd = 300\<rparr>]"
  by code_simp+

lemma scenario_match_positions:
  "map (\<lambda>(k, j, c). k) (rx_all coursePattern 0 ''KT-222CSE112(71_I)MB  KT-223MAT101(71_I)AST'')
   = [6, 28]"
  by code_simp

text \<open>
  The layout of the anchor line decides the columns. With the two anchors at offsets
  0 and 7 the boundary is 3, left of both course codes, and both entries fall into
  the second column; with the placeholders of the specification taken literally the
  line has no anchor, no column is built and nothing is extracted.
\<close>

lemma extractClasses_scenario_compact:
  "map scenarioFields (extractClasses scenarioCompactText) =
     [(''SATURDAY'', ''10:00'', ''CSE112'', ''71'', ''I'', ''KT-222'', ''MB''),
      (''SATURDAY'', ''10:00'', ''MAT101'', ''71'', ''I'', ''KT-223'', ''AST'')]"
  by code_simp

lemma extractClasses_scenario_literal: "extractClasses scenarioLiteralText = []"
  by code_simp


section \<open>Headers whose time ranges and anchors differ in number\<close>

lemma buildTimeSlots_mismatch:
  "length timeRanges \<noteq> length columnPositions \<Longrightarrow> buildTimeSlots timeRanges columnPositions = []"
  by (simp add: buildTimeSlots_def)

lemma step_header:
  "isDayHeader header \<Longrightarrow>
   result (step header following st) = result st
   \<and> timeSlots (step header following st)
       = buildTimeSlots (extractTimes (lineAt following 0))
           (extractColumnPositions (lineAt following 1))"
  by (simp add: step_def isDayHeader_def Let_def)

lemma step_no_slots:
  "\<not> isDayHeader line \<Longrightarrow> timeSlots st = [] \<Longrightarrow>
   result (step line following st) = result st \<and> timeSlots (step line following st) = []"
  by (simp add: step_def isDayHeader_def Let_def)

lemma run_block_no_slots:
  "timeSlots st = [] \<Longrightarrow> \<forall>l \<in> set block. \<not> isDayHeader l \<Longrightarrow>
   \<exists>st'. run (block @ rest) st = run rest st' \<and> result st' = result st \<and> timeSlots st' = []"
proof (induction block arbitrary: st)
  case Nil
  then show ?case by auto
next
  case (Cons l block)
  have n: "\<not> isDayHeader l" using Cons.prems by simp
  from step_no_slots [OF n Cons.prems(1), of "block @ rest"]
  have s: "result (step l (block @ rest) st) = result st"
    "timeSlots (step l (block @ rest) st) = []" by simp_all
  have "\<forall>l \<in> set block. \<not> isDayHeader l" using Cons.prems by simp
  from Cons.IH [OF s(2) this]
  obtain st' where "run (block @ rest) (step l (block @ rest) st) = run rest st'"
    "result st' = result (step l (block @ rest) st)" "timeSlots st' = []" by blast
  then show ?case using s by auto
qed

text \<open>
  After such a header \<open>PDFParserV3\<close> has no column, and every line up to the next
  weekday header is skipped: the result is what it was before the header.
\<close>

lemma mismatched_header_skips_block:
  assumes "isDayHeader header"
    and "length (extractTimes (lineAt (block @ rest) 0))
         \<noteq> length (extractColumnPositions (lineAt (block @ rest) 1))"
    and "\<forall>l \<in> set block. \<not> isDayHeader l"
  shows "timeSlots (step header (block @ rest) st) = []
         \<and> (\<exists>st'. run (header # block @ rest) st = run rest st' \<and> result st' = result st
                   \<and> timeSlots st' = [])"
proof -
  from step_header [OF assms(1), of "block @ rest" st] buildTimeSlots_mismatch [OF assms(2)]
  have h: "result (step header (block @ rest) st) = result st"
    "timeSlots (step header (block @ rest) st) = []" by simp_all
  from run_block_no_slots [OF h(2) assms(3), of rest]
  obtain st' where "run (block @ rest) (step header (block @ rest) st) = run rest st'"
    "result st' = result (step header (block @ rest) st)" "timeSlots st' = []" by blast
  then have "\<exists>st'. run (header # block @ rest) st = run rest st' \<and> result st' = result st
                   \<and> timeSlots st' = []"
    using h by auto
  then show ?thesis using h(2) by blast
qed

text \<open>
  The pairing of \<open>PDFParserOptimized\<close>: one column for every time range, with the
  anchor at its index as start and the next anchor as end, 0 and 999 where there is
  none.
\<close>

lemma buildTimeSlotsOptimized_length:
  "length (buildTimeSlotsOptimized timeRanges columnPositions) = length timeRanges"
  by (simp add: buildTimeSlotsOptimized_def)

lemma buildTimeSlotsOptimized_nth:
  "idx < length timeRanges \<Longrightarrow>
   buildTimeSlotsOptimized timeRanges columnPositions ! idx =
     \<lparr>slotStart = fst (timeRanges ! idx), slotEnd = snd (timeRanges ! idx),
      columnStart = positionOr columnPositions idx 0,
      columnEnd = positionOr columnPositions (Suc idx) 999\<rparr>"
  by (simp add: buildTimeSlotsOptimized_def)

text \<open>
  Claim C2 at a day block with two time ranges and one anchor: \<open>PDFParserV3\<close> pairs
  nothing, builds no column and extracts no entry of the block, although the entry
  stands under the first time range. \<open>PDFParserOptimized\<close> pairs by index on the same
  header: both time ranges get a column, and the first one, from offset 0, holds the
  entry at offset 6.
\<close>

theorem mismatched_header_drops_block:
  "length (extractTimes ''08:30-10:00  10:00-11:30'') = 2
   \<and> length (extractColumnPositions ''Course'') = 1
   \<and> buildTimeSlots (extractTimes ''08:30-10:00  10:00-11:30'') (extractColumnPositions ''Course'')
       = []
   \<and> extractClasses mismatchText = []
   \<and> buildTimeSlotsOptimized (extractTimes ''08:30-10:00  10:00-11:30'')
        (extractColumnPositions ''Course'')
       = [\<lparr>slotStart = ''08:30'', slotEnd = ''10:00'', columnStart = 0, columnEnd = 999\<rparr>,
          \<lparr>slotStart = ''10:00'', slotEnd = ''11:30'', columnStart = 0, columnEnd = 999\<rparr>]
   \<and> map (\<lambda>(k, j, c). k) (rx_all coursePattern 0 ''KT-222CSE112(71_I)MB'') = [6]"
  by code_simp

section \<open>The cache: hits, expiry and status\<close>

lemma getOrParsePdf_hit:
  assumes "filter (\<lambda>c. pc_department c = department \<and> pc_version c = version) (pdfCache db)
           = vc # others"
    and "pc_expiresAt vc > now"
  shows "getOrParsePdf w tmp now later (Some db) department pdfUrl version
         = (Inr (map rowToClass (filter (\<lambda>c. cr_cacheId c = pc_id vc) (classSchedules db))),
            Some db, [])"
  using assms by (simp add: getOrParsePdf_def Let_def)

text \<open>When the cache answers (the trace is empty), the record it read has not expired.\<close>

lemma getOrParsePdf_never_expired:
  assumes "getOrParsePdf w tmp now later (Some db) department pdfUrl version = (Inr cs, dbo', [])"
  shows "\<exists>vc \<in> set (pdfCache db). pc_department vc = department \<and> pc_version vc = version
           \<and> pc_expiresAt vc > now
           \<and> cs = map rowToClass (filter (\<lambda>c. cr_cacheId c = pc_id vc) (classSchedules db))"
proof (cases "filter (\<lambda>c. pc_department c = department \<and> pc_version c = version) (pdfCache db)")
  case Nil
  then have "traceOf (getOrParsePdf w tmp now later (Some db) department pdfUrl version) \<noteq> []"
    by (auto simp: getOrParsePdf_def traceOf_def Let_def parsePDFFromURL_def
        split: sum.splits option.splits prod.splits)
  with assms show ?thesis by (simp add: traceOf_def)
next
  case (Cons vc others)
  then have m: "vc \<in> set (filter (\<lambda>c. pc_department c = department \<and> pc_version c = version)
                  (pdfCache db))" by simp
  show ?thesis
  proof (cases "pc_expiresAt vc > now")
    case True
    from getOrParsePdf_hit [OF Cons True, of w tmp later pdfUrl] assms m True
    show ?thesis by auto
  next
    case False
    then have "traceOf (getOrParsePdf w tmp now later (Some db) department pdfUrl version) \<noteq> []"
      using Cons
      by (auto simp: getOrParsePdf_def traceOf_def Let_def parsePDFFromURL_def
          split: sum.splits option.splits prod.splits)
    with assms show ?thesis by (simp add: traceOf_def)
  qed
qed

lemma status_sound:
  assumes "getCacheStatus (Some db) now department = Inr s" "isCached s"
  shows "hasValidRecord db now department"
proof (cases "filter (\<lambda>c. pc_department c = department) (pdfCache db)")
  case Nil
  with assms show ?thesis by (auto simp: getCacheStatus_def)
next
  case (Cons c cs)
  then have "c \<in> set (filter (\<lambda>c. pc_department c = department) (pdfCache db))" by simp
  then have m: "c \<in> set (pdfCache db)" "pc_department c = department" by simp_all
  from assms Cons have "pc_expiresAt c > now" by (auto simp: getCacheStatus_def Let_def)
  with m show ?thesis by (auto simp: hasValidRecord_def find_None_iff)
qed

lemma clearCache_then_status:
  assumes "clearCache (Some db) department = Inr db'"
  shows "getCacheStatus (Some db') now department =
           Inr \<lparr>isCached = False, st_parsedAt = None, st_expiresAt = None,
                st_totalClasses = None\<rparr>"
proof -
  have p: "pdfCache (foldl (\<lambda>d cache. d\<lparr>classSchedules :=
              filter (\<lambda>r. cr_cacheId r \<noteq> pc_id cache) (classSchedules d)\<rparr>) d0 caches)
           = pdfCache d0" for d0 :: Db and caches :: "PdfCacheRow list"
    by (induction caches arbitrary: d0) simp_all
  from assms have "pdfCache db' = filter (\<lambda>c. pc_department c \<noteq> department) (pdfCache db)"
    by (auto simp: clearCache_def Let_def p)
  then have "filter (\<lambda>c. pc_department c = department) (pdfCache db') = []"
    by (simp add: filter_empty_conv)
  then show ?thesis by (simp add: getCacheStatus_def)
qed

text \<open>
  Claim C5 from an empty database, for one key: the first call parses and stores a
  record that expires after 30 days; a call one day later is answered by the cache.
  A call on day 31 finds the record expired, parses, and stores a second record next
  to the first, which stays. A call on day 32, within the 30 days of the second
  record, reads the first record again, finds it expired, parses a third time and
  stores a third record.
\<close>

theorem getOrParsePdf_parses_again_within_ttl:
  "recordsOf (dbAfter call1) = [(''cse'', ''1.0'', days 30)]
   \<and> parseCount (traceOf call1b) = 0
   \<and> parseCount (traceOf call2) = 1
   \<and> recordsOf (dbAfter call2) = [(''cse'', ''1.0'', days 30), (''cse'', ''1.0'', days 61)]
   \<and> days 32 < days 61
   \<and> parseCount (traceOf call3) = 1
   \<and> recordsOf (dbAfter call3) =
       [(''cse'', ''1.0'', days 30), (''cse'', ''1.0'', days 61), (''cse'', ''1.0'', days 62)]"
  by code_simp

text \<open>
  Claim C9 after the first two of these calls: on day 32 the department has a record
  that expires on day 61, and \<open>getCacheStatus\<close> reports \<open>isCached = false\<close> from the
  first, expired record.
\<close>

theorem getCacheStatus_misses_valid_record:
  "recordsOf (dbAfter call2) = [(''cse'', ''1.0'', days 30), (''cse'', ''1.0'', days 61)]
   \<and> validRecordExists (dbAfter call2) (days 32) ''cse''
   \<and> getCacheStatus (dbAfter call2) (days 32) ''cse'' =
       Inr \<lparr>isCached = False, st_parsedAt = Some 0, st_expiresAt = Some (days 30),
            st_totalClasses = Some 2\<rparr>"
  by code_simp

end
